theory Spec2Isabelle
  imports Main "HOL-Library.Word"
begin

section \<open>The node model\<close>

text \<open>
  The operators of \<^verbatim>\<open>driver/normalizer/normalizer.go\<close> work on the SDK's
  \<^verbatim>\<open>nodes.Node\<close>: an interface value that is \<^verbatim>\<open>nil\<close> or one of
  \<^verbatim>\<open>Object\<close> (a Go map from field name to node), \<^verbatim>\<open>Array\<close> (a slice of nodes),
  \<^verbatim>\<open>String\<close>, \<^verbatim>\<open>Int\<close> (int64), \<^verbatim>\<open>Uint\<close> (uint64), \<^verbatim>\<open>Float\<close> (float64, kept here as
  its 64 bits) and \<^verbatim>\<open>Bool\<close>. A Go map is a finite partial function, so an object is a
  map \<open>string \<rightharpoonup> node\<close>; reading a missing key of a Go map gives the nil node.
\<close>

datatype node =
    Nil_node
  | Object "string \<Rightarrow> node option"
  | Array "node list"
  | String string
  | Int_node "64 word"
  | Uint "64 word"
  | Float "64 word"
  | Bool bool

text \<open>
  Errors are values. \<open>ErrUnexpectedType\<close> is the SDK's error of the same name (expected
  and actual node), \<open>ErrMsg\<close> an error made by \<^verbatim>\<open>errors.New\<close> or \<^verbatim>\<open>fmt.Errorf\<close>, and
  \<open>Panic\<close> stands for the run-time panic of an unchecked type assertion.
\<close>

datatype error =
    ErrUnexpectedType node node
  | ErrMsg string
  | Panic

text \<open>
  An \<^verbatim>\<open>Op\<close> of the SDK has a \<^verbatim>\<open>Check(st, n) (bool, error)\<close> and a
  \<^verbatim>\<open>Construct(st, n) (nodes.Node, error)\<close>; both receive the state by pointer, so both
  return the state they leave. The sub-operations of the operators below are fields of
  this type; the state type is left open.
\<close>

type_synonym check_result = "bool \<times> error option"

record 'st Op =
  Check :: "'st \<Rightarrow> node \<Rightarrow> check_result \<times> 'st"
  Construct :: "'st \<Rightarrow> node \<Rightarrow> (error + node) \<times> 'st"

text \<open>A sub-match succeeded when it returned \<^verbatim>\<open>(true, nil)\<close>.\<close>

definition matched :: "check_result \<Rightarrow> bool" where
  "matched r = (fst r \<and> snd r = None)"

text \<open>
  Modelled from the spec: the reserved key of the type discriminator
  (\<^verbatim>\<open>uast.KeyType\<close>) and the reserved type tags of the generic wrapper and of the
  function container (\<^verbatim>\<open>uast.TypeOf(uast.Group{})\<close>, \<^verbatim>\<open>uast.TypeOf(uast.FunctionGroup{})\<close>)
  are constants of the SDK, which is not part of this repository.
\<close>

definition KeyType :: string where
  "KeyType = ''@type''"

definition typeGroup :: string where
  "typeGroup = ''uast:Group''"

definition typeFuncGroup :: string where
  "typeFuncGroup = ''uast:FunctionGroup''"

text \<open>
  Modelled from the spec: \<^verbatim>\<open>uast.TypeOf\<close> of the SDK reads the type discriminator of a
  node: the string under the reserved key of an object, the empty string otherwise.
\<close>

fun TypeOf :: "node \<Rightarrow> string" where
  "TypeOf (Object obj) = (case obj KeyType of Some (String tp) \<Rightarrow> tp | _ \<Rightarrow> [])"
| "TypeOf _ = []"

text \<open>
  The checked type assertion \<^verbatim>\<open>arr, ok := n.(nodes.Array)\<close>: on failure \<^verbatim>\<open>arr\<close> is the
  zero value of a slice, the nil slice, which is \<open>None\<close> here.
\<close>

fun assertArray :: "node \<Rightarrow> node list option \<times> bool" where
  "assertArray (Array xs) = (Some xs, True)"
| "assertArray _ = (None, False)"

text \<open>Ranging over a slice or taking its length treats the nil slice as empty.\<close>

fun elems :: "node list option \<Rightarrow> node list" where
  "elems None = []"
| "elems (Some xs) = xs"

section \<open>opArrHasKeyword\<close>

record 'st opArrHasKeyword =
  keyword :: string
  opHas :: "'st Op"
  opRest :: "'st Op"

text \<open>
  The three tests of the loop body of \<^verbatim>\<open>opArrHasKeyword.Check\<close> that do not
  \<^verbatim>\<open>continue\<close>: the element is an object, it has the type key, and the value under
  it is a string equal to the keyword.
\<close>

fun isKeyword :: "string \<Rightarrow> node \<Rightarrow> bool" where
  "isKeyword kw (Object obj) =
     (case obj KeyType of
        None \<Rightarrow> False
      | Some (String typ) \<Rightarrow> typ = kw
      | Some _ \<Rightarrow> False)"
| "isKeyword kw _ = False"

text \<open>
  The loop \<^verbatim>\<open>for i, n := range arr\<close> with the code after it: \<open>i\<close> is the index of the
  head of the remaining elements, \<open>arr\<close> the whole slice and \<open>n\<close> the input node.
\<close>

fun hasKeyword_range ::
  "'st opArrHasKeyword \<Rightarrow> 'st \<Rightarrow> node \<Rightarrow> node list \<Rightarrow> nat \<Rightarrow> node list \<Rightarrow> check_result \<times> 'st" where
  "hasKeyword_range op st n arr i [] =
     (case Check (opHas op) st (Bool False) of (r, st1) \<Rightarrow>
        if snd r \<noteq> None \<or> \<not> fst r then (r, st1)
        else Check (opRest op) st1 n)"
| "hasKeyword_range op st n arr i (e # es) =
     (if \<not> isKeyword (keyword op) e then hasKeyword_range op st n arr (Suc i) es
      else
        (case Check (opHas op) st (Bool True) of (r, st1) \<Rightarrow>
           if snd r \<noteq> None \<or> \<not> fst r then (r, st1)
           else Check (opRest op) st1 (Array (take i arr @ drop (Suc i) arr))))"

definition opArrHasKeyword_Check ::
  "'st opArrHasKeyword \<Rightarrow> 'st \<Rightarrow> node \<Rightarrow> check_result \<times> 'st" where
  "opArrHasKeyword_Check op st n =
     (case assertArray n of (arr, ok) \<Rightarrow>
        if \<not> ok \<and> arr \<noteq> None then ((False, None), st)
        else hasKeyword_range op st n (elems arr) 0 (elems arr))"

section \<open>dropNils\<close>

text \<open>The struct has the one field \<^verbatim>\<open>op\<close>, which is the first argument here.\<close>

definition dropNils_Check :: "'st Op \<Rightarrow> 'st \<Rightarrow> node \<Rightarrow> check_result \<times> 'st" where
  "dropNils_Check op st n =
     (case assertArray n of (arr, ok) \<Rightarrow>
        if \<not> ok \<and> n \<noteq> Nil_node then ((False, None), st)
        else Check op st (Array (filter (\<lambda>e. e \<noteq> Nil_node) (elems arr))))"

definition dropNils_Construct :: "'st Op \<Rightarrow> 'st \<Rightarrow> node \<Rightarrow> (error + node) \<times> 'st" where
  "dropNils_Construct op st n = Construct op st n"

section \<open>opArrToChain\<close>

record 'st opArrToChain =
  opMods :: "'st Op"
  opType :: "'st Op"

text \<open>
  \<^verbatim>\<open>opArrToChain.Check\<close>: the slice \<^verbatim>\<open>mods\<close> is declared and never appended to, so
  the modifiers sub-pattern receives it as it was declared, an array without elements.
\<close>

definition opArrToChain_Check ::
  "'st opArrToChain \<Rightarrow> 'st \<Rightarrow> node \<Rightarrow> check_result \<times> 'st" where
  "opArrToChain_Check op st n =
     (let mods = Array [] in
      case Check (opType op) st n of (r, st1) \<Rightarrow>
        if snd r \<noteq> None \<or> \<not> fst r then (r, st1)
        else Check (opMods op) st1 mods)"

text \<open>
  The loop \<^verbatim>\<open>for _, nd := range mods\<close> of \<^verbatim>\<open>opArrToChain.Construct\<close>; \<open>typ\<close> is the
  running node.
\<close>

fun chain_range :: "node list \<Rightarrow> node \<Rightarrow> error + node" where
  "chain_range [] typ = Inr typ"
| "chain_range (nd # mods) typ =
     (case nd of
        Object modifier \<Rightarrow>
          if modifier ''Type'' \<noteq> None then Inl (ErrMsg ''unexpected field in modifier: Type'')
          else chain_range mods (Object (modifier(''Type'' \<mapsto> typ)))
      | _ \<Rightarrow> Inl (ErrUnexpectedType (Object Map.empty) nd))"

definition opArrToChain_Construct ::
  "'st opArrToChain \<Rightarrow> 'st \<Rightarrow> node \<Rightarrow> (error + node) \<times> 'st" where
  "opArrToChain_Construct op st n =
     (case Construct (opMods op) st Nil_node of
        (Inl err, st1) \<Rightarrow> (Inl err, st1)
      | (Inr nd, st1) \<Rightarrow>
          (case nd of
             Array mods \<Rightarrow>
               (case Construct (opType op) st1 n of
                  (Inl err, st2) \<Rightarrow> (Inl err, st2)
                | (Inr typ, st2) \<Rightarrow> (chain_range mods typ, st2))
           | _ \<Rightarrow> (Inl (ErrUnexpectedType (Array []) nd), st1)))"

text \<open>
  Modelled from the spec: the named capture of the SDK (\<^verbatim>\<open>Var\<close>), the sub-pattern the
  rule table gives to the operators: it binds the node under its name on \<open>Check\<close> and
  emits the bound node on \<open>Construct\<close>. The state is the store of bindings. Binding a
  name again succeeds only with the node it already has.
\<close>

definition Var :: "string \<Rightarrow> (string \<Rightarrow> node option) Op" where
  "Var name =
     \<lparr> Check = (\<lambda>st n.
         case st name of
           None \<Rightarrow> ((True, None), st(name \<mapsto> n))
         | Some v \<Rightarrow>
             if v = n then ((True, None), st)
             else ((False, Some (ErrMsg ''variable redeclared'')), st)),
       Construct = (\<lambda>st n.
         case st name of
           None \<Rightarrow> (Inl (ErrMsg ''variable is not defined''), st)
         | Some v \<Rightarrow> (Inr v, st)) \<rparr>"

section \<open>Helpers of the trivia relocator and of the group merger\<close>

text \<open>\<^verbatim>\<open>strings.HasSuffix\<close> of Go's standard library.\<close>

definition HasSuffix :: "string \<Rightarrow> string \<Rightarrow> bool" where
  "HasSuffix s suffix =
     (length s \<ge> length suffix \<and> drop (length s - length suffix) s = suffix)"

definition triviaField :: "string \<Rightarrow> string option" where
  "triviaField = [''Block'' \<mapsto> ''Statements'', ''CompilationUnit'' \<mapsto> ''Members'']"

text \<open>
  \<^verbatim>\<open>firstWithType\<close> returns the index of the first node whose type passes the filter,
  and \<open>-1\<close> when there is none; \<open>None\<close> stands for \<open>-1\<close>.
\<close>

fun firstWithType_from :: "nat \<Rightarrow> node list \<Rightarrow> (string \<Rightarrow> bool) \<Rightarrow> nat option" where
  "firstWithType_from i [] fnc = None"
| "firstWithType_from i (sub # arr) fnc =
     (if fnc (TypeOf sub) then Some i else firstWithType_from (Suc i) arr fnc)"

definition firstWithType :: "node list \<Rightarrow> (string \<Rightarrow> bool) \<Rightarrow> nat option" where
  "firstWithType arr fnc = firstWithType_from 0 arr fnc"

text \<open>
  The checked assertion \<^verbatim>\<open>obj[key].(nodes.Array)\<close> on a field of an object: a missing
  key reads as the nil node, for which the assertion fails like for any other
  non-array; only the length and the elements of the slice are used afterwards.
\<close>

definition fieldArray :: "(string \<Rightarrow> node option) \<Rightarrow> string \<Rightarrow> node list \<times> bool" where
  "fieldArray obj key =
     (case obj key of Some (Array xs) \<Rightarrow> (xs, True) | _ \<Rightarrow> ([], False))"

text \<open>
  Modelled from the spec: \<^verbatim>\<open>uast.ToNode(uast.Group{})\<close> of the SDK gives a fresh generic
  wrapper: an object with the reserved type tag and an empty \<^verbatim>\<open>Nodes\<close> array.
\<close>

definition ToNode_Group :: "error + node" where
  "ToNode_Group = Inr (Object [KeyType \<mapsto> String typeGroup, ''Nodes'' \<mapsto> Array []])"

text \<open>
  The verb \<^verbatim>\<open>%q\<close> of \<^verbatim>\<open>fmt.Errorf\<close> on a field name: the name between double quotes
  (the names of the table have no character to escape).
\<close>

definition quoted :: "string \<Rightarrow> string" where
  "quoted s = [CHR 0x22] @ s @ [CHR 0x22]"

section \<open>opMoveTrivias\<close>

text \<open>
  The fields the loop of \<^verbatim>\<open>opMoveTrivias.Check\<close> looks into: the one named
  \<^verbatim>\<open>ReturnType\<close> and those whose name ends in \<^verbatim>\<open>Token\<close> or \<^verbatim>\<open>Keyword\<close>.
\<close>

definition isTokenKey :: "string \<Rightarrow> bool" where
  "isTokenKey key = (key = ''ReturnType'' \<or> HasSuffix key ''Token'' \<or> HasSuffix key ''Keyword'')"

text \<open>
  The variables of \<^verbatim>\<open>opMoveTrivias.Check\<close> that the loop over the fields changes.
\<close>

record trivia_vars =
  obj :: "string \<Rightarrow> node option"
  leading :: "node list"
  trailing :: "node list"
  modified :: bool

text \<open>
  The lines before the loop: the two side-channel fields are read, and removed from a
  clone of the object when one of them is an array.
\<close>

definition moveTrivias_init :: "(string \<Rightarrow> node option) \<Rightarrow> trivia_vars" where
  "moveTrivias_init obj0 =
     (case fieldArray obj0 ''LeadingTrivia'' of (leading0, ok1) \<Rightarrow>
      case fieldArray obj0 ''TrailingTrivia'' of (trailing0, ok2) \<Rightarrow>
        if ok1 \<or> ok2
        then \<lparr> obj = obj0(''LeadingTrivia'' := None, ''TrailingTrivia'' := None),
               leading = leading0, trailing = trailing0, modified = True \<rparr>
        else \<lparr> obj = obj0, leading = leading0, trailing = trailing0, modified = False \<rparr>)"

text \<open>
  One round of the loop \<^verbatim>\<open>for key, sub := range obj\<close>. The unchecked assertion
  \<^verbatim>\<open>sub.(nodes.Object)\<close> is reached only when the type of \<open>sub\<close> is the tag of the
  generic wrapper, which only an object has; the round returns the error of a panic
  otherwise.
\<close>

definition moveTrivias_round :: "string \<Rightarrow> node \<Rightarrow> trivia_vars \<Rightarrow> error + trivia_vars" where
  "moveTrivias_round key sub v =
     (if key \<noteq> ''ReturnType'' \<and> \<not> HasSuffix key ''Token'' \<and> \<not> HasSuffix key ''Keyword''
      then Inr v
      else if TypeOf sub \<noteq> typeGroup then Inr v
      else case sub of
        Object grp \<Rightarrow>
          (case fieldArray grp ''Nodes'' of (arr, ok) \<Rightarrow>
             if \<not> ok then Inr v
             else
               (case firstWithType arr (\<lambda>typ. \<not> HasSuffix typ ''Trivia'') of
                  None \<Rightarrow>
                    Inr (v\<lparr> leading := leading v @ arr,
                            obj := (obj v)(key \<mapsto> Nil_node), modified := True \<rparr>)
                | Some ind \<Rightarrow>
                    Inr (v\<lparr> leading := leading v @ take ind arr,
                            trailing := drop (Suc ind) arr @ trailing v,
                            obj := (obj v)(key \<mapsto> arr ! ind), modified := True \<rparr>)))
      | _ \<Rightarrow> Inl Panic)"

text \<open>
  The loop ranges over a Go map, whose order of iteration is not fixed: \<open>ks\<close> is the
  order in which this run visits the keys, and \<open>m\<close> the map ranged over, which gives
  each key's value (a key is visited once, and a round writes only its own key).
\<close>

fun moveTrivias_range ::
  "string list \<Rightarrow> (string \<Rightarrow> node option) \<Rightarrow> trivia_vars \<Rightarrow> error + trivia_vars" where
  "moveTrivias_range [] m v = Inr v"
| "moveTrivias_range (key # ks) m v =
     (case m key of
        None \<Rightarrow> moveTrivias_range ks m v
      | Some sub \<Rightarrow>
          (case moveTrivias_round key sub v of
             Inl err \<Rightarrow> Inl err
           | Inr v' \<Rightarrow> moveTrivias_range ks m v'))"

text \<open>Steps 1 and 2 together: what the relocator holds when the loop is over.\<close>

definition moveTrivias_held ::
  "string list \<Rightarrow> (string \<Rightarrow> node option) \<Rightarrow> error + trivia_vars" where
  "moveTrivias_held ks obj0 =
     (let v = moveTrivias_init obj0 in moveTrivias_range ks (obj v) v)"

text \<open>
  \<^verbatim>\<open>opMoveTrivias.Check\<close>; \<open>sub\<close> is the one field of the struct, \<open>ks\<close> the order of
  iteration of this run.
\<close>

definition opMoveTrivias_Check ::
  "string list \<Rightarrow> 'st Op \<Rightarrow> 'st \<Rightarrow> node \<Rightarrow> check_result \<times> 'st" where
  "opMoveTrivias_Check ks sub st n =
     (case n of
        Object obj0 \<Rightarrow>
          (case moveTrivias_held ks obj0 of
             Inl err \<Rightarrow> ((False, Some err), st)
           | Inr v \<Rightarrow>
               if length (leading v) = 0 \<and> length (trailing v) = 0 then
                 (if \<not> modified v then ((False, None), st)
                  else Check sub st (Object (obj v)))
               else
                 (case triviaField (TypeOf (Object (obj v))) of
                    Some field \<Rightarrow>
                      (case fieldArray (obj v) field of (old, ok) \<Rightarrow>
                         if \<not> ok
                         then ((False, Some (ErrMsg (''expected '' @ quoted field @
                                                     '' field to be an array''))), st)
                         else Check sub st
                                (Object ((obj v)(field \<mapsto> Array (leading v @ old @ trailing v)))))
                  | None \<Rightarrow>
                      (case ToNode_Group of
                         Inl err \<Rightarrow> ((False, Some err), st)
                       | Inr (Object grp) \<Rightarrow>
                           Check sub st
                             (Object (grp(''Nodes'' \<mapsto>
                                Array (leading v @ [Object (obj v)] @ trailing v))))
                       | Inr _ \<Rightarrow> ((False, Some Panic), st))))
      | _ \<Rightarrow> ((False, None), st))"

section \<open>opMergeGroups\<close>

definition checkGroup ::
  "'st Op \<Rightarrow> 'st \<Rightarrow> (string \<Rightarrow> node option) \<Rightarrow> check_result \<times> 'st" where
  "checkGroup sub st grp =
     (case fieldArray grp ''Nodes'' of (arr, ok) \<Rightarrow>
        if \<not> ok then ((False, Some (ErrMsg ''expected an array in Group.Nodes'')), st)
        else
          (case firstWithType arr (\<lambda>typ. typ = typeFuncGroup) of
             None \<Rightarrow> ((False, None), st)
           | Some ind \<Rightarrow>
               (case arr ! ind of
                  Object fgroup \<Rightarrow>
                    (case fieldArray fgroup ''Nodes'' of (arr', ok') \<Rightarrow>
                       if \<not> ok' then ((False, Some (ErrMsg ''expected an array in Group.Nodes'')), st)
                       else Check sub st
                              (Object (fgroup(''Nodes'' \<mapsto>
                                 Array (take ind arr @ arr' @ drop (Suc ind) arr)))))
                | _ \<Rightarrow> ((False, Some Panic), st))))"

text \<open>
  One round of the loop \<^verbatim>\<open>for i := 0; i < len(arr); i++\<close> of \<^verbatim>\<open>checkFuncGroup\<close>, on
  the variables \<^verbatim>\<open>arr\<close>, \<^verbatim>\<open>i\<close> and \<^verbatim>\<open>modified\<close>, with the increment of the loop
  header. Removing a nil entry shortens the slice and leaves the index where it is
  (\<^verbatim>\<open>i--\<close>, then \<^verbatim>\<open>i++\<close>). The unchecked assertion \<^verbatim>\<open>arr2[ind].(nodes.Object)\<close> is
  on a node whose type is the tag of the generic wrapper.
\<close>

definition funcGroup_round ::
  "node list \<Rightarrow> nat \<Rightarrow> bool \<Rightarrow> error + node list \<times> nat \<times> bool" where
  "funcGroup_round arr i modified' =
     (if arr ! i = Nil_node
      then Inr (take i arr @ drop (Suc i) arr, i, True)
      else case arr ! i of
        Array arr2 \<Rightarrow>
          (case firstWithType arr2 (\<lambda>typ. typ = typeGroup) of
             None \<Rightarrow> Inr (arr, Suc i, modified')
           | Some ind \<Rightarrow>
               (case arr2 ! ind of
                  Object grp \<Rightarrow>
                    (case fieldArray grp ''Nodes'' of (arr3, ok) \<Rightarrow>
                       if \<not> ok then Inl (ErrMsg ''expected an array in Group.Nodes'')
                       else Inr (arr[i := Array (take ind arr2 @ arr3 @ drop (Suc ind) arr2)],
                                 Suc i, True))
                | _ \<Rightarrow> Inl Panic))
      | _ \<Rightarrow> Inr (arr, Suc i, modified'))"

function funcGroup_loop :: "node list \<Rightarrow> nat \<Rightarrow> bool \<Rightarrow> error + node list \<times> bool" where
  "funcGroup_loop arr i modified' =
     (if \<not> i < length arr then Inr (arr, modified')
      else case funcGroup_round arr i modified' of
        Inl err \<Rightarrow> Inl err
      | Inr (arr1, i1, modified1) \<Rightarrow> funcGroup_loop arr1 i1 modified1)"
  by pat_completeness auto
termination
  by (relation "measure (\<lambda>(arr, i, modified'). length arr - i)")
     (auto simp: funcGroup_round_def
           split: if_splits node.splits option.splits prod.splits)

declare funcGroup_loop.simps [simp del]

definition checkFuncGroup ::
  "'st Op \<Rightarrow> 'st \<Rightarrow> (string \<Rightarrow> node option) \<Rightarrow> check_result \<times> 'st" where
  "checkFuncGroup sub st fgroup =
     (case fieldArray fgroup ''Nodes'' of (arr, ok) \<Rightarrow>
        if \<not> ok then ((False, Some (ErrMsg ''expected an array in FuncGroup.Nodes'')), st)
        else
          (case funcGroup_loop arr 0 False of
             Inl err \<Rightarrow> ((False, Some err), st)
           | Inr (arr', modified') \<Rightarrow>
               if \<not> modified' then ((False, None), st)
               else Check sub st (Object (fgroup(''Nodes'' \<mapsto> Array arr')))))"

definition opMergeGroups_Check :: "'st Op \<Rightarrow> 'st \<Rightarrow> node \<Rightarrow> check_result \<times> 'st" where
  "opMergeGroups_Check sub st n =
     (case n of
        Object grp \<Rightarrow>
          if TypeOf (Object grp) = typeGroup then checkGroup sub st grp
          else if TypeOf (Object grp) = typeFuncGroup then checkFuncGroup sub st grp
          else ((False, None), st)
      | _ \<Rightarrow> ((False, None), st))"

section \<open>The function container in the words of the spec\<close>

text \<open>
  What the spec says of one entry of a FunctionGroup's \<^verbatim>\<open>Nodes\<close>: an entry that is
  itself an array and holds a generic wrapper has the first such wrapper replaced, in
  place, by the contents of the wrapper's own \<^verbatim>\<open>Nodes\<close>; any other entry is left as
  it is.
\<close>

fun spec_spliceSlot :: "node \<Rightarrow> node" where
  "spec_spliceSlot (Array slot) =
     (case firstWithType slot (\<lambda>typ. typ = typeGroup) of
        None \<Rightarrow> Array slot
      | Some ind \<Rightarrow>
          (case slot ! ind of
             Object grp \<Rightarrow>
               (case grp ''Nodes'' of
                  Some (Array inner) \<Rightarrow> Array (take ind slot @ inner @ drop (Suc ind) slot)
                | _ \<Rightarrow> Array slot)
           | _ \<Rightarrow> Array slot))"
| "spec_spliceSlot v = v"

text \<open>
  The whole array: the nil entries dropped, the others in their order, each one
  spliced.
\<close>

definition spec_compactFuncGroup :: "node list \<Rightarrow> node list" where
  "spec_compactFuncGroup arr = map spec_spliceSlot (filter (\<lambda>v. v \<noteq> Nil_node) arr)"

text \<open>An entry that is an array with a generic wrapper among its elements.\<close>

fun holdsGroup :: "node \<Rightarrow> bool" where
  "holdsGroup (Array slot) = (firstWithType slot (\<lambda>typ. typ = typeGroup) \<noteq> None)"
| "holdsGroup v = False"

text \<open>
  An entry whose first generic wrapper, when it has one, carries a \<^verbatim>\<open>Nodes\<close> array.
\<close>

fun slotGroupHasNodes :: "node \<Rightarrow> bool" where
  "slotGroupHasNodes (Array slot) =
     (case firstWithType slot (\<lambda>typ. typ = typeGroup) of
        None \<Rightarrow> True
      | Some ind \<Rightarrow>
          (case slot ! ind of
             Object grp \<Rightarrow> snd (fieldArray grp ''Nodes'')
           | _ \<Rightarrow> False))"
| "slotGroupHasNodes v = True"

section \<open>Example nodes and operators\<close>

text \<open>An object that has a type discriminator and no other field.\<close>

definition ex_typed :: "string \<Rightarrow> node" where
  "ex_typed tp = Object [KeyType \<mapsto> String tp]"

text \<open>
  A keyword extractor as the rule table builds them: both sub-patterns are named
  captures.
\<close>

definition ex_keywordOp :: "(string \<Rightarrow> node option) opArrHasKeyword" where
  "ex_keywordOp = \<lparr> keyword = ''Keyword'', opHas = Var ''has'', opRest = Var ''rest'' \<rparr>"

text \<open>
  The chain operator of the rule table (the \<^verbatim>\<open>Type\<close> field of an argument): the
  modifiers come from the capture \<^verbatim>\<open>rest\<close>, the terminal from the capture \<^verbatim>\<open>type\<close>.
\<close>

definition ex_chainOp :: "(string \<Rightarrow> node option) opArrToChain" where
  "ex_chainOp = \<lparr> opMods = Var ''rest'', opType = Var ''type'' \<rparr>"

definition ex_ref :: "string \<Rightarrow> node option" where
  "ex_ref = [KeyType \<mapsto> String ''RefKeyword'']"

definition ex_out :: "string \<Rightarrow> node option" where
  "ex_out = [KeyType \<mapsto> String ''OutKeyword'']"

definition ex_Int :: node where
  "ex_Int = ex_typed ''Int''"

text \<open>A generic wrapper and a function container with the given \<^verbatim>\<open>Nodes\<close>.\<close>

definition ex_group :: "node list \<Rightarrow> string \<Rightarrow> node option" where
  "ex_group nodes = [KeyType \<mapsto> String typeGroup, ''Nodes'' \<mapsto> Array nodes]"

definition ex_funcGroup :: "node list \<Rightarrow> string \<Rightarrow> node option" where
  "ex_funcGroup nodes = [KeyType \<mapsto> String typeFuncGroup, ''Name'' \<mapsto> String ''f'',
                         ''Nodes'' \<mapsto> Array nodes]"

text \<open>
  A block with leading and trailing trivia (its type has the designated field
  \<^verbatim>\<open>Statements\<close>), a name with leading and trailing trivia (its type has none), a
  statement whose semicolon token was wrapped with the trivia that followed it, an
  argument list with a plain token, and a block with leading trivia and no statements.
\<close>

definition ex_block :: "string \<Rightarrow> node option" where
  "ex_block = [KeyType \<mapsto> String ''Block'',
               ''LeadingTrivia'' \<mapsto> Array [ex_typed ''C1''],
               ''TrailingTrivia'' \<mapsto> Array [ex_typed ''C2''],
               ''Statements'' \<mapsto> Array [ex_typed ''S1'']]"

definition ex_name :: "string \<Rightarrow> node option" where
  "ex_name = [KeyType \<mapsto> String ''IdentifierName'',
              ''LeadingTrivia'' \<mapsto> Array [ex_typed ''C1''],
              ''TrailingTrivia'' \<mapsto> Array [ex_typed ''C2'']]"

definition ex_return :: "string \<Rightarrow> node option" where
  "ex_return = [KeyType \<mapsto> String ''ReturnStatement'',
                ''SemicolonToken'' \<mapsto>
                   Object (ex_group [ex_typed ''SemicolonToken'', ex_typed ''EndOfLineTrivia''])]"


definition ex_block_no_statements :: "string \<Rightarrow> node option" where
  "ex_block_no_statements = [KeyType \<mapsto> String ''Block'',
                             ''LeadingTrivia'' \<mapsto> Array [ex_typed ''C1'']]"

section \<open>The keyword extractor on arrays\<close>

text \<open>
  \<open>isKeyword K e\<close> says that \<open>e\<close> is an object whose type discriminator is the
  string \<open>K\<close>.
\<close>

lemma isKeyword_iff:
  "isKeyword kw e \<longleftrightarrow> (\<exists>ob. e = Object ob \<and> ob KeyType = Some (String kw))"
  by (cases e) (auto split: option.splits node.splits)

lemma hasKeyword_range_none:
  "\<forall>e\<in>set es. \<not> isKeyword (keyword op) e \<Longrightarrow>
   hasKeyword_range op st n arr i es =
     (case Check (opHas op) st (Bool False) of (r, st1) \<Rightarrow>
        if matched r then Check (opRest op) st1 n else (r, st1))"
  by (induction es arbitrary: i) (auto simp: matched_def split: prod.splits)

lemma hasKeyword_range_first:
  "k < length es \<Longrightarrow> isKeyword (keyword op) (es ! k) \<Longrightarrow>
   \<forall>j<k. \<not> isKeyword (keyword op) (es ! j) \<Longrightarrow>
   hasKeyword_range op st n arr i es =
     (case Check (opHas op) st (Bool True) of (r, st1) \<Rightarrow>
        if matched r then Check (opRest op) st1 (Array (take (i + k) arr @ drop (Suc (i + k)) arr))
        else (r, st1))"
proof (induction es arbitrary: i k)
  case Nil
  then show ?case by simp
next
  case (Cons e es)
  show ?case
  proof (cases k)
    case 0
    with Cons.prems show ?thesis
      by (auto simp: matched_def split: prod.splits)
  next
    case (Suc k')
    from Cons.prems Suc have e: "\<not> isKeyword (keyword op) e" by auto
    from Cons.prems Suc have a: "k' < length es" "isKeyword (keyword op) (es ! k')"
      "\<forall>j<k'. \<not> isKeyword (keyword op) (es ! j)" by auto
    from Cons.IH[OF a, of "Suc i"] e show ?thesis
      unfolding Suc by (simp split: prod.splits)
  qed
qed

text \<open>
  Claim C2. On an array \<open>xs\<close> and the configured keyword: when no element is an object
  whose type discriminator is the keyword, the check gives \<open>false\<close> to the flag
  sub-pattern and, if that matched, the array itself to the remainder sub-pattern; when
  there is such an element, with \<open>i\<close> the index of the leftmost one, it gives \<open>true\<close> to
  the flag sub-pattern and, if that matched, the array without the element at \<open>i\<close> (the
  others in their order) to the remainder sub-pattern. In both cases the check matches
  exactly when both sub-matches do.
\<close>

theorem opArrHasKeyword_Check_array:
  "((\<forall>e\<in>set xs. \<not> isKeyword (keyword op) e) \<longrightarrow>
      (case Check (opHas op) st (Bool False) of (r, st1) \<Rightarrow>
         opArrHasKeyword_Check op st (Array xs) =
           (if matched r then Check (opRest op) st1 (Array xs) else (r, st1))
         \<and> (matched (fst (opArrHasKeyword_Check op st (Array xs))) \<longleftrightarrow>
              matched r \<and> matched (fst (Check (opRest op) st1 (Array xs))))))
   \<and> (\<forall>i<length xs.
        isKeyword (keyword op) (xs ! i) \<and> (\<forall>j<i. \<not> isKeyword (keyword op) (xs ! j)) \<longrightarrow>
        (case Check (opHas op) st (Bool True) of (r, st1) \<Rightarrow>
           opArrHasKeyword_Check op st (Array xs) =
             (if matched r then Check (opRest op) st1 (Array (take i xs @ drop (Suc i) xs))
              else (r, st1))
           \<and> (matched (fst (opArrHasKeyword_Check op st (Array xs))) \<longleftrightarrow>
                matched r \<and>
                matched (fst (Check (opRest op) st1 (Array (take i xs @ drop (Suc i) xs)))))))"
proof (intro conjI impI allI)
  assume none: "\<forall>e\<in>set xs. \<not> isKeyword (keyword op) e"
  obtain r st1 where c: "Check (opHas op) st (Bool False) = (r, st1)"
    by (cases "Check (opHas op) st (Bool False)")
  have "opArrHasKeyword_Check op st (Array xs) =
          (if matched r then Check (opRest op) st1 (Array xs) else (r, st1))"
    using hasKeyword_range_none[OF none, of st "Array xs" xs 0] c
    by (simp add: opArrHasKeyword_Check_def)
  then show "case Check (opHas op) st (Bool False) of (r, st1) \<Rightarrow>
         opArrHasKeyword_Check op st (Array xs) =
           (if matched r then Check (opRest op) st1 (Array xs) else (r, st1))
         \<and> (matched (fst (opArrHasKeyword_Check op st (Array xs))) \<longleftrightarrow>
              matched r \<and> matched (fst (Check (opRest op) st1 (Array xs))))"
    using c by simp
next
  fix i
  assume i: "i < length xs"
    and k: "isKeyword (keyword op) (xs ! i) \<and> (\<forall>j<i. \<not> isKeyword (keyword op) (xs ! j))"
  obtain r st1 where c: "Check (opHas op) st (Bool True) = (r, st1)"
    by (cases "Check (opHas op) st (Bool True)")
  have "opArrHasKeyword_Check op st (Array xs) =
          (if matched r then Check (opRest op) st1 (Array (take i xs @ drop (Suc i) xs))
           else (r, st1))"
    using hasKeyword_range_first[of i xs op st "Array xs" xs 0] i k c
    by (simp add: opArrHasKeyword_Check_def)
  then show "case Check (opHas op) st (Bool True) of (r, st1) \<Rightarrow>
           opArrHasKeyword_Check op st (Array xs) =
             (if matched r then Check (opRest op) st1 (Array (take i xs @ drop (Suc i) xs))
              else (r, st1))
           \<and> (matched (fst (opArrHasKeyword_Check op st (Array xs))) \<longleftrightarrow>
                matched r \<and>
                matched (fst (Check (opRest op) st1 (Array (take i xs @ drop (Suc i) xs)))))"
    using c by simp
qed

theorem opArrHasKeyword_Check_array_witness:
  "\<not> isKeyword (keyword ex_keywordOp) (ex_typed ''Comment'')
   \<and> \<not> isKeyword (keyword ex_keywordOp) (String ''b'')
   \<and> opArrHasKeyword_Check ex_keywordOp Map.empty (Array [ex_typed ''Comment'', String ''b''])
       = ((True, None),
          [''has'' \<mapsto> Bool False, ''rest'' \<mapsto> Array [ex_typed ''Comment'', String ''b'']])
   \<and> isKeyword (keyword ex_keywordOp)
        ([ex_typed ''Comment'', ex_typed ''Keyword'', String ''b'', ex_typed ''Keyword''] ! 1)
   \<and> opArrHasKeyword_Check ex_keywordOp Map.empty
        (Array [ex_typed ''Comment'', ex_typed ''Keyword'', String ''b'', ex_typed ''Keyword''])
       = ((True, None),
          [''has'' \<mapsto> Bool True,
           ''rest'' \<mapsto> Array [ex_typed ''Comment'', String ''b'', ex_typed ''Keyword'']])"
  using opArrHasKeyword_Check_array
          [of "[ex_typed ''Comment'', String ''b'']" ex_keywordOp Map.empty, THEN conjunct1]
        opArrHasKeyword_Check_array
          [of "[ex_typed ''Comment'', ex_typed ''Keyword'', String ''b'', ex_typed ''Keyword'']"
              ex_keywordOp Map.empty, THEN conjunct2, rule_format, of 1]
  by (simp add: ex_typed_def ex_keywordOp_def Var_def KeyType_def matched_def)

section \<open>The keyword extractor on other nodes\<close>

text \<open>
  Claim C8. The guard \<^verbatim>\<open>!ok && arr != nil\<close> of \<^verbatim>\<open>opArrHasKeyword.Check\<close> never holds:
  when the assertion fails, \<^verbatim>\<open>arr\<close> is the nil slice. On a string node the check does
  not stop: it ranges over no element, gives \<open>false\<close> to the flag sub-pattern and the
  string itself to the remainder sub-pattern, and matches when both do.
\<close>

theorem opArrHasKeyword_Check_non_array_falls_through:
  "opArrHasKeyword_Check
     \<lparr> keyword = ''ParamsKeyword'', opHas = Var ''variadic'', opRest = Var ''rest'' \<rparr>
     Map.empty (String ''x'')
   = ((True, None), [''variadic'' \<mapsto> Bool False, ''rest'' \<mapsto> String ''x''])"
  by (simp add: opArrHasKeyword_Check_def Var_def)

section \<open>The nil compactor\<close>

text \<open>
  Claim C10. \<^verbatim>\<open>dropNils.Check\<close> reports no match, without an error and without calling
  its sub-pattern, on every node that is neither nil nor an array; on the nil node it
  gives the empty array to its sub-pattern; on an array it gives the array without its
  nil elements.
\<close>

theorem dropNils_Check_kinds:
  "(n \<noteq> Nil_node \<and> (\<forall>xs. n \<noteq> Array xs) \<longrightarrow> dropNils_Check op st n = ((False, None), st))
   \<and> dropNils_Check op st Nil_node = Check op st (Array [])
   \<and> dropNils_Check op st (Array xs) = Check op st (Array (filter (\<lambda>e. e \<noteq> Nil_node) xs))"
  by (cases n) (simp_all add: dropNils_Check_def)

theorem dropNils_Check_kinds_witness:
  "String ''x'' \<noteq> Nil_node \<and> (\<forall>xs. String ''x'' \<noteq> Array xs)
   \<and> dropNils_Check (Var ''arr'') Map.empty (String ''x'') = ((False, None), Map.empty)
   \<and> dropNils_Check (Var ''arr'') Map.empty Nil_node = ((True, None), [''arr'' \<mapsto> Array []])"
  using dropNils_Check_kinds [of "String ''x''" "Var ''arr''" Map.empty "[]"]
  by (simp add: Var_def)

section \<open>Facts about the helpers\<close>

lemma typeGroup_nonempty: "typeGroup \<noteq> []"
  by (simp add: typeGroup_def)

lemma typeFuncGroup_nonempty: "typeFuncGroup \<noteq> []"
  by (simp add: typeFuncGroup_def)

lemma typeGroup_neq_typeFuncGroup: "typeGroup \<noteq> typeFuncGroup"
  by (simp add: typeGroup_def typeFuncGroup_def)

lemma TypeOf_nonempty_Object: "TypeOf n \<noteq> [] \<Longrightarrow> \<exists>ob. n = Object ob"
  by (cases n) simp_all

lemma firstWithType_from_None:
  "firstWithType_from i arr fnc = None \<longleftrightarrow> (\<forall>e\<in>set arr. \<not> fnc (TypeOf e))"
  by (induction arr arbitrary: i) auto

lemma firstWithType_from_shift:
  "firstWithType_from i arr fnc = map_option (\<lambda>k. k + i) (firstWithType_from 0 arr fnc)"
proof (induction arr arbitrary: i)
  case Nil
  then show ?case by simp
next
  case (Cons e arr)
  from Cons.IH[of "Suc i"] Cons.IH[of "Suc 0"] show ?case
    by (simp add: option.map_comp comp_def)
qed

lemma firstWithType_from_0_Some:
  "firstWithType_from 0 arr fnc = Some k \<longleftrightarrow>
     (k < length arr \<and> fnc (TypeOf (arr ! k)) \<and> (\<forall>j<k. \<not> fnc (TypeOf (arr ! j))))"
proof (induction arr arbitrary: k)
  case Nil
  then show ?case by simp
next
  case (Cons e arr)
  show ?case
  proof (cases "fnc (TypeOf e)")
    case True
    then show ?thesis by (cases k) auto
  next
    case False
    show ?thesis
    proof (cases k)
      case 0
      with False show ?thesis
        by (simp add: firstWithType_from_shift[of "Suc 0"])
    next
      case (Suc k')
      with False Cons.IH[of k'] show ?thesis
        by (simp add: firstWithType_from_shift[of "Suc 0"] All_less_Suc2)
    qed
  qed
qed

lemma firstWithType_None:
  "firstWithType arr fnc = None \<longleftrightarrow> (\<forall>e\<in>set arr. \<not> fnc (TypeOf e))"
  by (simp add: firstWithType_def firstWithType_from_None)

lemma firstWithType_Some:
  "firstWithType arr fnc = Some k \<longleftrightarrow>
     (k < length arr \<and> fnc (TypeOf (arr ! k)) \<and> (\<forall>j<k. \<not> fnc (TypeOf (arr ! j))))"
  by (simp add: firstWithType_def firstWithType_from_0_Some)

lemma ex_ref_Type [simp]: "ex_ref ''Type'' = None"
  by (simp add: ex_ref_def KeyType_def)

lemma ex_out_Type [simp]: "ex_out ''Type'' = None"
  by (simp add: ex_out_def KeyType_def)

lemma ex_ref_KeyType [simp]: "ex_ref KeyType = Some (String ''RefKeyword'')"
  by (simp add: ex_ref_def)

lemma ex_out_KeyType [simp]: "ex_out KeyType = Some (String ''OutKeyword'')"
  by (simp add: ex_out_def)

section \<open>The chain encoder\<close>

text \<open>
  Claim C3, as the code has it. With two wrappers \<open>m1\<close>, \<open>m2\<close> (in this order) from the
  modifiers sub-pattern, neither carrying \<^verbatim>\<open>Type\<close>, and the terminal \<open>t\<close> from the type
  sub-pattern, \<^verbatim>\<open>opArrToChain.Construct\<close> returns \<open>m2\<close> holding \<open>m1\<close> holding \<open>t\<close>: the
  loop wraps the running node into each modifier in turn, so the last modifier of the
  list is the outermost wrapper and the first one holds the terminal.
\<close>

theorem opArrToChain_Construct_two:
  assumes "Construct (opMods op) st Nil_node = (Inr (Array [Object m1, Object m2]), st1)"
    and "Construct (opType op) st1 n = (Inr t, st2)"
    and "m1 ''Type'' = None" and "m2 ''Type'' = None"
  shows "opArrToChain_Construct op st n =
           (Inr (Object (m2(''Type'' \<mapsto> Object (m1(''Type'' \<mapsto> t))))), st2)"
  using assms by (simp add: opArrToChain_Construct_def)

theorem opArrToChain_Construct_two_witness:
  "opArrToChain_Construct ex_chainOp
     [''rest'' \<mapsto> Array [Object ex_ref, Object ex_out], ''type'' \<mapsto> ex_Int] Nil_node
   = (Inr (Object (ex_out(''Type'' \<mapsto> Object (ex_ref(''Type'' \<mapsto> ex_Int))))),
      [''rest'' \<mapsto> Array [Object ex_ref, Object ex_out], ''type'' \<mapsto> ex_Int])"
  using opArrToChain_Construct_two
          [of ex_chainOp "[''rest'' \<mapsto> Array [Object ex_ref, Object ex_out], ''type'' \<mapsto> ex_Int]"
              ex_ref ex_out "[''rest'' \<mapsto> Array [Object ex_ref, Object ex_out], ''type'' \<mapsto> ex_Int]"
              Nil_node ex_Int "[''rest'' \<mapsto> Array [Object ex_ref, Object ex_out], ''type'' \<mapsto> ex_Int]"]
  by (simp add: ex_chainOp_def Var_def)

text \<open>
  For the list of \<^verbatim>\<open>ref\<close> and \<^verbatim>\<open>out\<close> around \<^verbatim>\<open>Int\<close> the result is not \<^verbatim>\<open>ref\<close> holding
  \<^verbatim>\<open>out\<close> holding \<^verbatim>\<open>Int\<close>: the outermost type discriminator is the one of \<^verbatim>\<open>out\<close>.
\<close>

theorem opArrToChain_Construct_ref_out_counterexample:
  "fst (opArrToChain_Construct ex_chainOp
     [''rest'' \<mapsto> Array [Object ex_ref, Object ex_out], ''type'' \<mapsto> ex_Int] Nil_node)
   \<noteq> Inr (Object (ex_ref(''Type'' \<mapsto> Object (ex_out(''Type'' \<mapsto> ex_Int)))))"
proof
  assume "fst (opArrToChain_Construct ex_chainOp
     [''rest'' \<mapsto> Array [Object ex_ref, Object ex_out], ''type'' \<mapsto> ex_Int] Nil_node)
   = Inr (Object (ex_ref(''Type'' \<mapsto> Object (ex_out(''Type'' \<mapsto> ex_Int)))))"
  then have "ex_out(''Type'' \<mapsto> Object (ex_ref(''Type'' \<mapsto> ex_Int)))
           = ex_ref(''Type'' \<mapsto> Object (ex_out(''Type'' \<mapsto> ex_Int)))"
    by (simp add: opArrToChain_Construct_def ex_chainOp_def Var_def)
  then have "(ex_out(''Type'' \<mapsto> Object (ex_ref(''Type'' \<mapsto> ex_Int)))) KeyType
           = (ex_ref(''Type'' \<mapsto> Object (ex_out(''Type'' \<mapsto> ex_Int)))) KeyType"
    by (rule arg_cong)
  then show False by (simp add: KeyType_def ex_ref_def ex_out_def)
qed

section \<open>The group merger\<close>

lemma funcGroup_round_ok:
  assumes "slotGroupHasNodes (arr ! i)"
  shows "funcGroup_round arr i m =
           Inr (if arr ! i = Nil_node then (take i arr @ drop (Suc i) arr, i, True)
                else (arr[i := spec_spliceSlot (arr ! i)], Suc i, m \<or> holdsGroup (arr ! i)))"
proof -
  have same: "\<And>x. arr ! i = x \<Longrightarrow> arr[i := x] = arr"
    by auto
  from assms show ?thesis
    by (cases "arr ! i")
       (auto simp: funcGroup_round_def fieldArray_def same
             split: option.splits node.splits)
qed

lemma funcGroup_loop_ok:
  "\<forall>v\<in>set (drop i arr). slotGroupHasNodes v \<Longrightarrow>
   funcGroup_loop arr i m =
     Inr (take i arr @ spec_compactFuncGroup (drop i arr),
          m \<or> (\<exists>v\<in>set (drop i arr). v = Nil_node \<or> holdsGroup v))"
proof (induction arr i m rule: funcGroup_loop.induct)
  case (1 arr i m)
  show ?case
  proof (cases "i < length arr")
    case False
    then show ?thesis
      by (simp add: funcGroup_loop.simps[of arr i m] spec_compactFuncGroup_def)
  next
    case True
    then have d: "drop i arr = arr ! i # drop (Suc i) arr"
      by (simp add: Cons_nth_drop_Suc)
    with "1.prems" have ok: "slotGroupHasNodes (arr ! i)"
      and rest: "\<forall>v\<in>set (drop (Suc i) arr). slotGroupHasNodes v" by auto
    note r = funcGroup_round_ok[OF ok, of m]
    show ?thesis
    proof (cases "arr ! i = Nil_node")
      case nil: True
      let ?arr1 = "take i arr @ drop (Suc i) arr"
      from True have t: "take i ?arr1 = take i arr" and dd: "drop i ?arr1 = drop (Suc i) arr"
        by simp_all
      from r nil have rr: "funcGroup_round arr i m = Inr (?arr1, i, True)" by simp
      from rest dd have "\<forall>v\<in>set (drop i ?arr1). slotGroupHasNodes v" by simp
      from "1.IH"[OF _ rr refl refl this] True
      have "funcGroup_loop ?arr1 i True =
              Inr (take i ?arr1 @ spec_compactFuncGroup (drop i ?arr1),
                   True \<or> (\<exists>v\<in>set (drop i ?arr1). v = Nil_node \<or> holdsGroup v))"
        by simp
      with True rr nil d show ?thesis
        by (simp add: funcGroup_loop.simps[of arr i m] t dd spec_compactFuncGroup_def)
    next
      case nonnil: False
      let ?arr1 = "arr[i := spec_spliceSlot (arr ! i)]"
      let ?m1 = "m \<or> holdsGroup (arr ! i)"
      from True have t: "take (Suc i) ?arr1 = take i arr @ [spec_spliceSlot (arr ! i)]"
        by (simp add: take_Suc_conv_app_nth)
      have dd: "drop (Suc i) ?arr1 = drop (Suc i) arr" by simp
      from r nonnil have rr: "funcGroup_round arr i m = Inr (?arr1, Suc i, ?m1)" by simp
      from rest dd have "\<forall>v\<in>set (drop (Suc i) ?arr1). slotGroupHasNodes v" by simp
      from "1.IH"[OF _ rr refl refl this] True
      have "funcGroup_loop ?arr1 (Suc i) ?m1 =
              Inr (take (Suc i) ?arr1 @ spec_compactFuncGroup (drop (Suc i) ?arr1),
                   ?m1 \<or> (\<exists>v\<in>set (drop (Suc i) ?arr1). v = Nil_node \<or> holdsGroup v))"
        by simp
      with True rr nonnil d show ?thesis
        by (simp add: funcGroup_loop.simps[of arr i m] t dd spec_compactFuncGroup_def)
    qed
  qed
qed

text \<open>
  Claim C5. For a generic wrapper whose \<^verbatim>\<open>Nodes\<close> array is \<open>arr\<close>: when no element of
  \<open>arr\<close> is a FunctionGroup, \<^verbatim>\<open>opMergeGroups.Check\<close> reports no match; when \<open>i\<close> is the
  index of the first FunctionGroup \<open>fg\<close>, with \<^verbatim>\<open>Nodes\<close> array \<open>inner\<close>, the wrapper is
  dropped and the sub-pattern receives \<open>fg\<close> with only its \<^verbatim>\<open>Nodes\<close> changed, to the
  wrapper's items before \<open>i\<close>, then \<open>inner\<close>, then the wrapper's items after \<open>i\<close>.
\<close>

theorem opMergeGroups_Check_Group:
  assumes "TypeOf (Object g) = typeGroup" and "g ''Nodes'' = Some (Array arr)"
  shows "((\<forall>e\<in>set arr. TypeOf e \<noteq> typeFuncGroup) \<longrightarrow>
            opMergeGroups_Check sub st (Object g) = ((False, None), st))
       \<and> (\<forall>i fg inner.
            i < length arr \<and> arr ! i = Object fg \<and> TypeOf (Object fg) = typeFuncGroup \<and>
            (\<forall>j<i. TypeOf (arr ! j) \<noteq> typeFuncGroup) \<and> fg ''Nodes'' = Some (Array inner) \<longrightarrow>
            opMergeGroups_Check sub st (Object g) =
              Check sub st
                (Object (fg(''Nodes'' \<mapsto> Array (take i arr @ inner @ drop (Suc i) arr)))))"
proof (intro conjI impI allI)
  assume "\<forall>e\<in>set arr. TypeOf e \<noteq> typeFuncGroup"
  then have "firstWithType arr (\<lambda>typ. typ = typeFuncGroup) = None"
    by (simp add: firstWithType_None)
  with assms show "opMergeGroups_Check sub st (Object g) = ((False, None), st)"
    by (simp add: opMergeGroups_Check_def checkGroup_def fieldArray_def)
next
  fix i fg inner
  assume a: "i < length arr \<and> arr ! i = Object fg \<and> TypeOf (Object fg) = typeFuncGroup \<and>
            (\<forall>j<i. TypeOf (arr ! j) \<noteq> typeFuncGroup) \<and> fg ''Nodes'' = Some (Array inner)"
  then have "firstWithType arr (\<lambda>typ. typ = typeFuncGroup) = Some i"
    by (simp add: firstWithType_Some)
  with assms a show "opMergeGroups_Check sub st (Object g) =
              Check sub st
                (Object (fg(''Nodes'' \<mapsto> Array (take i arr @ inner @ drop (Suc i) arr))))"
    by (simp add: opMergeGroups_Check_def checkGroup_def fieldArray_def)
qed

theorem opMergeGroups_Check_Group_witness:
  "TypeOf (Object (ex_group [ex_typed ''Comment'', String ''s''])) = typeGroup
   \<and> opMergeGroups_Check (Var ''group'') Map.empty
        (Object (ex_group [ex_typed ''Comment'', String ''s''])) = ((False, None), Map.empty)
   \<and> TypeOf (Object (ex_funcGroup [ex_typed ''Alias''])) = typeFuncGroup
   \<and> opMergeGroups_Check (Var ''group'') Map.empty
        (Object (ex_group [ex_typed ''Comment'', Object (ex_funcGroup [ex_typed ''Alias'']),
                           String ''s'', Object (ex_funcGroup [])]))
       = ((True, None),
          [''group'' \<mapsto> Object ((ex_funcGroup [ex_typed ''Alias''])
             (''Nodes'' \<mapsto> Array [ex_typed ''Comment'', ex_typed ''Alias'', String ''s'',
                                 Object (ex_funcGroup [])]))])"
  using opMergeGroups_Check_Group
          [of "ex_group [ex_typed ''Comment'', String ''s'']" "[ex_typed ''Comment'', String ''s'']"
              "Var ''group''" Map.empty, THEN conjunct1]
        opMergeGroups_Check_Group
          [of "ex_group [ex_typed ''Comment'', Object (ex_funcGroup [ex_typed ''Alias'']),
                         String ''s'', Object (ex_funcGroup [])]"
              "[ex_typed ''Comment'', Object (ex_funcGroup [ex_typed ''Alias'']),
                String ''s'', Object (ex_funcGroup [])]"
              "Var ''group''" Map.empty, THEN conjunct2, rule_format,
           of 1 "ex_funcGroup [ex_typed ''Alias'']" "[ex_typed ''Alias'']"]
  by (simp add: ex_group_def ex_funcGroup_def ex_typed_def KeyType_def typeGroup_def
                typeFuncGroup_def Var_def)

text \<open>
  Claim C6. For a FunctionGroup whose \<^verbatim>\<open>Nodes\<close> array is \<open>arr\<close> (every generic wrapper
  that is the first one of an array entry carrying a \<^verbatim>\<open>Nodes\<close> array):
  \<^verbatim>\<open>opMergeGroups.Check\<close> gives its sub-pattern the FunctionGroup with \<^verbatim>\<open>Nodes\<close> changed
  to \<open>arr\<close> without its nil entries, the other entries in their order, each array entry
  that holds a generic wrapper having the first one replaced in place by the wrapper's
  contents; when \<open>arr\<close> has no nil entry and no such array entry it reports no match.
\<close>

theorem opMergeGroups_Check_FuncGroup:
  assumes "TypeOf (Object fg) = typeFuncGroup" and "fg ''Nodes'' = Some (Array arr)"
    and "\<forall>v\<in>set arr. slotGroupHasNodes v"
  shows "opMergeGroups_Check sub st (Object fg) =
           (if \<exists>v\<in>set arr. v = Nil_node \<or> holdsGroup v
            then Check sub st (Object (fg(''Nodes'' \<mapsto> Array (spec_compactFuncGroup arr))))
            else ((False, None), st))"
  using assms funcGroup_loop_ok[of 0 arr False] typeGroup_neq_typeFuncGroup
  by (simp add: opMergeGroups_Check_def checkFuncGroup_def fieldArray_def)

theorem opMergeGroups_Check_FuncGroup_witness:
  "opMergeGroups_Check (Var ''group'') Map.empty
     (Object (ex_funcGroup
        [Nil_node, ex_typed ''Alias'',
         Array [String ''a'', Object (ex_group [String ''x'', String ''y'']), String ''b'',
                Object (ex_group [])],
         Nil_node, Array [String ''c'']]))
   = ((True, None),
      [''group'' \<mapsto> Object ((ex_funcGroup
        [Nil_node, ex_typed ''Alias'',
         Array [String ''a'', Object (ex_group [String ''x'', String ''y'']), String ''b'',
                Object (ex_group [])],
         Nil_node, Array [String ''c'']])
        (''Nodes'' \<mapsto> Array
          [ex_typed ''Alias'',
           Array [String ''a'', String ''x'', String ''y'', String ''b'', Object (ex_group [])],
           Array [String ''c'']]))])
   \<and> opMergeGroups_Check (Var ''group'') Map.empty
        (Object (ex_funcGroup [ex_typed ''Alias'', Array [String ''c'']]))
      = ((False, None), Map.empty)"
  using opMergeGroups_Check_FuncGroup
          [of "ex_funcGroup
                [Nil_node, ex_typed ''Alias'',
                 Array [String ''a'', Object (ex_group [String ''x'', String ''y'']), String ''b'',
                        Object (ex_group [])],
                 Nil_node, Array [String ''c'']]"
              "[Nil_node, ex_typed ''Alias'',
                 Array [String ''a'', Object (ex_group [String ''x'', String ''y'']), String ''b'',
                        Object (ex_group [])],
                 Nil_node, Array [String ''c'']]"
              "Var ''group''" Map.empty]
        opMergeGroups_Check_FuncGroup
          [of "ex_funcGroup [ex_typed ''Alias'', Array [String ''c'']]"
              "[ex_typed ''Alias'', Array [String ''c'']]" "Var ''group''" Map.empty]
  by (simp add: ex_group_def ex_funcGroup_def ex_typed_def KeyType_def typeGroup_def
                typeFuncGroup_def Var_def firstWithType_def fieldArray_def
                spec_compactFuncGroup_def)

section \<open>The trivia relocator\<close>

text \<open>
  Facts about steps 1 and 2: a round changes nothing unless its key is a token field that
  holds a generic wrapper, it never panics, and it writes only its own key.
\<close>

lemma fieldArray_failed: "\<not> snd (fieldArray ob k) \<Longrightarrow> fst (fieldArray ob k) = []"
  by (simp add: fieldArray_def split: option.splits node.splits)

lemma moveTrivias_round_skip:
  "\<not> isTokenKey key \<or> TypeOf s \<noteq> typeGroup \<Longrightarrow> moveTrivias_round key s v = Inr v"
  by (auto simp: moveTrivias_round_def isTokenKey_def)

lemma moveTrivias_round_total: "\<exists>v'. moveTrivias_round key s v = Inr v'"
proof (cases "TypeOf s = typeGroup")
  case True
  with typeGroup_nonempty have "TypeOf s \<noteq> []" by simp
  then obtain ob where "s = Object ob" using TypeOf_nonempty_Object by blast
  then show ?thesis
    by (auto simp: moveTrivias_round_def split: prod.splits option.splits)
next
  case False
  then show ?thesis by (simp add: moveTrivias_round_skip)
qed

lemma moveTrivias_round_other_key:
  "moveTrivias_round key s v = Inr v' \<Longrightarrow> \<not> isTokenKey k \<Longrightarrow> obj v' k = obj v k"
  by (cases "isTokenKey key")
     (auto simp: moveTrivias_round_def isTokenKey_def
           split: if_splits node.splits prod.splits option.splits)

lemma moveTrivias_range_skip:
  "\<forall>k s. m k = Some s \<and> isTokenKey k \<longrightarrow> TypeOf s \<noteq> typeGroup \<Longrightarrow>
   moveTrivias_range ks m v = Inr v"
proof (induction ks)
  case Nil
  then show ?case by simp
next
  case (Cons key ks)
  then show ?case
    by (cases "m key") (auto simp: moveTrivias_round_skip)
qed

lemma moveTrivias_range_total: "\<exists>v'. moveTrivias_range ks m v = Inr v'"
proof (induction ks arbitrary: v)
  case Nil
  then show ?case by simp
next
  case (Cons key ks)
  show ?case
  proof (cases "m key")
    case None
    with Cons.IH show ?thesis by simp
  next
    case (Some s)
    obtain v1 where "moveTrivias_round key s v = Inr v1"
      using moveTrivias_round_total by blast
    with Some Cons.IH[of v1] show ?thesis by simp
  qed
qed

lemma moveTrivias_range_other_key:
  "moveTrivias_range ks m v = Inr v' \<Longrightarrow> \<not> isTokenKey k \<Longrightarrow> obj v' k = obj v k"
proof (induction ks arbitrary: v)
  case Nil
  then show ?case by simp
next
  case (Cons key ks)
  show ?case
  proof (cases "m key")
    case None
    with Cons show ?thesis by simp
  next
    case (Some s)
    obtain v1 where r: "moveTrivias_round key s v = Inr v1"
      using moveTrivias_round_total by blast
    with Some Cons.prems have "moveTrivias_range ks m v1 = Inr v'" by simp
    from Cons.IH[OF this Cons.prems(2)] moveTrivias_round_other_key[OF r Cons.prems(2)]
    show ?thesis by simp
  qed
qed

lemma not_token_keys:
  "\<not> isTokenKey KeyType" "\<not> isTokenKey ''LeadingTrivia''" "\<not> isTokenKey ''TrailingTrivia''"
  "\<not> isTokenKey ''Statements''" "\<not> isTokenKey ''Members''" "\<not> isTokenKey ''Nodes''"
  by (simp_all add: isTokenKey_def HasSuffix_def KeyType_def)

lemma moveTrivias_init_other_key:
  "k \<noteq> ''LeadingTrivia'' \<Longrightarrow> k \<noteq> ''TrailingTrivia'' \<Longrightarrow> obj (moveTrivias_init m) k = m k"
  by (simp add: moveTrivias_init_def split: prod.splits)

lemma moveTrivias_held_total: "\<exists>v. moveTrivias_held ks m = Inr v"
  by (simp add: moveTrivias_held_def Let_def moveTrivias_range_total)

lemma moveTrivias_held_other_key:
  assumes "moveTrivias_held ks m = Inr v" and "\<not> isTokenKey k"
    and "k \<noteq> ''LeadingTrivia''" and "k \<noteq> ''TrailingTrivia''"
  shows "obj v k = m k"
  using assms moveTrivias_range_other_key[of ks "obj (moveTrivias_init m)" "moveTrivias_init m" v k]
  by (simp add: moveTrivias_held_def Let_def moveTrivias_init_other_key)

lemma moveTrivias_held_TypeOf:
  assumes "moveTrivias_held ks m = Inr v"
  shows "TypeOf (Object (obj v)) = TypeOf (Object m)"
  using moveTrivias_held_other_key[OF assms not_token_keys(1)]
  by (simp add: KeyType_def)

lemma triviaField_Some:
  "triviaField tp = Some field \<Longrightarrow> field = ''Statements'' \<or> field = ''Members''"
  by (auto simp: triviaField_def split: if_splits)

lemma moveTrivias_held_field:
  assumes "moveTrivias_held ks m = Inr v" and "triviaField tp = Some field"
  shows "obj v field = m field"
  using triviaField_Some[OF assms(2)] moveTrivias_held_other_key[OF assms(1), of field]
        not_token_keys
  by auto

lemma moveTrivias_held_plain:
  assumes "\<forall>k s. m k = Some s \<and> isTokenKey k \<longrightarrow> TypeOf s \<noteq> typeGroup"
  shows "moveTrivias_held ks m = Inr (moveTrivias_init m)"
proof -
  have "\<forall>k s. obj (moveTrivias_init m) k = Some s \<and> isTokenKey k \<longrightarrow> TypeOf s \<noteq> typeGroup"
    using assms not_token_keys
    by (auto simp: moveTrivias_init_def split: prod.splits if_splits)
  then show ?thesis
    by (simp add: moveTrivias_held_def Let_def moveTrivias_range_skip)
qed

text \<open>
  Claim C1, as the code has it. Let the relocator hold the lists \<open>L = leading v\<close> and
  \<open>T = trailing v\<close>, not both empty, and the node \<open>obj v\<close> when the loop over the fields
  is over. If the node's type has a designated field (\<^verbatim>\<open>Block\<close>: \<^verbatim>\<open>Statements\<close>,
  \<^verbatim>\<open>CompilationUnit\<close>: \<^verbatim>\<open>Members\<close>) and the node has an array \<open>old\<close> there, the
  sub-pattern receives the held node with that field set to \<open>L @ old @ T\<close>, and no
  wrapper. If the type has no designated field, the sub-pattern receives a new generic
  wrapper whose \<^verbatim>\<open>Nodes\<close> is \<open>L @ [held node] @ T\<close>. The held node is the input node
  without its two trivia fields, and \<open>L\<close> and \<open>T\<close> are the contents of these fields,
  when no token field of the node holds a generic wrapper; a token field that holds one
  is replaced in the held node by the element located inside the wrapper.
\<close>

theorem opMoveTrivias_Check_relocates:
  assumes held: "moveTrivias_held ks m = Inr v"
    and nonempty: "leading v \<noteq> [] \<or> trailing v \<noteq> []"
  shows "(\<forall>field old.
            triviaField (TypeOf (Object m)) = Some field \<and> m field = Some (Array old) \<longrightarrow>
            opMoveTrivias_Check ks sub st (Object m) =
              Check sub st (Object ((obj v)(field \<mapsto> Array (leading v @ old @ trailing v)))))
       \<and> (triviaField (TypeOf (Object m)) = None \<longrightarrow>
            opMoveTrivias_Check ks sub st (Object m) =
              Check sub st
                (Object [KeyType \<mapsto> String typeGroup,
                         ''Nodes'' \<mapsto> Array (leading v @ [Object (obj v)] @ trailing v)]))
       \<and> ((\<forall>k s. m k = Some s \<and> isTokenKey k \<longrightarrow> TypeOf s \<noteq> typeGroup) \<longrightarrow>
            obj v = m(''LeadingTrivia'' := None, ''TrailingTrivia'' := None) \<and>
            leading v = fst (fieldArray m ''LeadingTrivia'') \<and>
            trailing v = fst (fieldArray m ''TrailingTrivia''))"
proof -
  from nonempty have ne: "(length (leading v) = 0 \<and> length (trailing v) = 0) = False" by simp
  have designated: "\<forall>field old.
            triviaField (TypeOf (Object m)) = Some field \<and> m field = Some (Array old) \<longrightarrow>
            opMoveTrivias_Check ks sub st (Object m) =
              Check sub st (Object ((obj v)(field \<mapsto> Array (leading v @ old @ trailing v))))"
  proof (intro allI impI)
    fix field old
    assume a: "triviaField (TypeOf (Object m)) = Some field \<and> m field = Some (Array old)"
    with moveTrivias_held_field[OF held, of "TypeOf (Object m)" field]
    have f: "obj v field = Some (Array old)" by simp
    from a moveTrivias_held_TypeOf[OF held]
    have t: "triviaField (TypeOf (Object (obj v))) = Some field" by simp
    show "opMoveTrivias_Check ks sub st (Object m) =
            Check sub st (Object ((obj v)(field \<mapsto> Array (leading v @ old @ trailing v))))"
      using held ne t f
      by (auto simp: opMoveTrivias_Check_def fieldArray_def simp del: TypeOf.simps)
  qed
  have wrapped: "triviaField (TypeOf (Object m)) = None \<longrightarrow>
            opMoveTrivias_Check ks sub st (Object m) =
              Check sub st
                (Object [KeyType \<mapsto> String typeGroup,
                         ''Nodes'' \<mapsto> Array (leading v @ [Object (obj v)] @ trailing v)])"
  proof
    assume a: "triviaField (TypeOf (Object m)) = None"
    with moveTrivias_held_TypeOf[OF held]
    have t: "triviaField (TypeOf (Object (obj v))) = None" by simp
    show "opMoveTrivias_Check ks sub st (Object m) =
            Check sub st
              (Object [KeyType \<mapsto> String typeGroup,
                       ''Nodes'' \<mapsto> Array (leading v @ [Object (obj v)] @ trailing v)])"
      using held ne t
      by (auto simp: opMoveTrivias_Check_def ToNode_Group_def simp del: TypeOf.simps)
  qed
  have plain: "(\<forall>k s. m k = Some s \<and> isTokenKey k \<longrightarrow> TypeOf s \<noteq> typeGroup) \<longrightarrow>
            obj v = m(''LeadingTrivia'' := None, ''TrailingTrivia'' := None) \<and>
            leading v = fst (fieldArray m ''LeadingTrivia'') \<and>
            trailing v = fst (fieldArray m ''TrailingTrivia'')"
  proof
    assume a: "\<forall>k s. m k = Some s \<and> isTokenKey k \<longrightarrow> TypeOf s \<noteq> typeGroup"
    from moveTrivias_held_plain[OF a, of ks] held have v: "v = moveTrivias_init m" by simp
    obtain l0 ok1 where l: "fieldArray m ''LeadingTrivia'' = (l0, ok1)"
      by (cases "fieldArray m ''LeadingTrivia''")
    obtain t0 ok2 where t: "fieldArray m ''TrailingTrivia'' = (t0, ok2)"
      by (cases "fieldArray m ''TrailingTrivia''")
    from l t v have lt: "leading v = l0" "trailing v = t0"
      by (simp_all add: moveTrivias_init_def)
    have "ok1 \<or> ok2"
    proof (rule ccontr)
      assume "\<not> (ok1 \<or> ok2)"
      with l t fieldArray_failed[of m "''LeadingTrivia''"] fieldArray_failed[of m "''TrailingTrivia''"]
      have "l0 = []" "t0 = []" by simp_all
      with lt nonempty show False by simp
    qed
    with l t v lt
    show "obj v = m(''LeadingTrivia'' := None, ''TrailingTrivia'' := None) \<and>
          leading v = fst (fieldArray m ''LeadingTrivia'') \<and>
          trailing v = fst (fieldArray m ''TrailingTrivia'')"
      by (simp add: moveTrivias_init_def)
  qed
  from designated wrapped plain show ?thesis by (intro conjI)
qed

theorem opMoveTrivias_Check_relocates_witness:
  "opMoveTrivias_Check [''@type'', ''Statements''] (Var ''group'') Map.empty (Object ex_block)
     = ((True, None),
        [''group'' \<mapsto> Object ((ex_block(''LeadingTrivia'' := None, ''TrailingTrivia'' := None))
           (''Statements'' \<mapsto> Array [ex_typed ''C1'', ex_typed ''S1'', ex_typed ''C2'']))])
   \<and> opMoveTrivias_Check [''@type''] (Var ''group'') Map.empty (Object ex_name)
     = ((True, None),
        [''group'' \<mapsto> Object [KeyType \<mapsto> String typeGroup,
           ''Nodes'' \<mapsto> Array [ex_typed ''C1'',
              Object (ex_name(''LeadingTrivia'' := None, ''TrailingTrivia'' := None)),
              ex_typed ''C2'']]])
   \<and> fst (fieldArray ex_name ''LeadingTrivia'') = [ex_typed ''C1'']
   \<and> fst (fieldArray ex_name ''TrailingTrivia'') = [ex_typed ''C2'']"
  using opMoveTrivias_Check_relocates
          [of "[''@type'', ''Statements'']" ex_block
              "\<lparr> obj = ex_block(''LeadingTrivia'' := None, ''TrailingTrivia'' := None),
                 leading = [ex_typed ''C1''], trailing = [ex_typed ''C2''], modified = True \<rparr>"
              "Var ''group''" Map.empty, THEN conjunct1, rule_format,
           of "''Statements''" "[ex_typed ''S1'']"]
        opMoveTrivias_Check_relocates
          [of "[''@type'']" ex_name
              "\<lparr> obj = ex_name(''LeadingTrivia'' := None, ''TrailingTrivia'' := None),
                 leading = [ex_typed ''C1''], trailing = [ex_typed ''C2''], modified = True \<rparr>"
              "Var ''group''" Map.empty, THEN conjunct2, THEN conjunct1]
        opMoveTrivias_Check_relocates
          [of "[''@type'']" ex_name
              "\<lparr> obj = ex_name(''LeadingTrivia'' := None, ''TrailingTrivia'' := None),
                 leading = [ex_typed ''C1''], trailing = [ex_typed ''C2''], modified = True \<rparr>"
              "Var ''group''" Map.empty, THEN conjunct2, THEN conjunct2]
  by (simp add: moveTrivias_held_def moveTrivias_init_def moveTrivias_round_def fieldArray_def
                ex_block_def ex_name_def KeyType_def HasSuffix_def triviaField_def Var_def)

text \<open>
  A statement whose semicolon token holds a wrapper of the token and an end-of-line
  trivia: the relocator holds no leading and one trailing node, and the node in the
  middle of the new wrapper has the token itself in the field, so it is not the input
  node stripped of its two trivia fields.
\<close>

theorem opMoveTrivias_Check_token_field_counterexample:
  "moveTrivias_held [''@type'', ''SemicolonToken''] ex_return
     = Inr \<lparr> obj = [KeyType \<mapsto> String ''ReturnStatement'',
                     ''SemicolonToken'' \<mapsto> ex_typed ''SemicolonToken''],
             leading = [], trailing = [ex_typed ''EndOfLineTrivia''], modified = True \<rparr>
   \<and> triviaField (TypeOf (Object ex_return)) = None
   \<and> opMoveTrivias_Check [''@type'', ''SemicolonToken''] (Var ''group'') Map.empty
        (Object ex_return)
     = ((True, None),
        [''group'' \<mapsto> Object [KeyType \<mapsto> String typeGroup,
           ''Nodes'' \<mapsto> Array
              [Object [KeyType \<mapsto> String ''ReturnStatement'',
                       ''SemicolonToken'' \<mapsto> ex_typed ''SemicolonToken''],
               ex_typed ''EndOfLineTrivia'']]])
   \<and> Object [KeyType \<mapsto> String ''ReturnStatement'',
              ''SemicolonToken'' \<mapsto> ex_typed ''SemicolonToken'']
     \<noteq> Object (ex_return(''LeadingTrivia'' := None, ''TrailingTrivia'' := None))"
proof -
  have held: "moveTrivias_held [''@type'', ''SemicolonToken''] ex_return
     = Inr \<lparr> obj = [KeyType \<mapsto> String ''ReturnStatement'',
                     ''SemicolonToken'' \<mapsto> ex_typed ''SemicolonToken''],
             leading = [], trailing = [ex_typed ''EndOfLineTrivia''], modified = True \<rparr>"
    by (simp add: moveTrivias_held_def moveTrivias_init_def moveTrivias_round_def
                  fieldArray_def ex_return_def ex_group_def ex_typed_def KeyType_def
                  HasSuffix_def typeGroup_def firstWithType_def)
  have tf: "triviaField (TypeOf (Object ex_return)) = None"
    by (simp add: ex_return_def KeyType_def triviaField_def)
  have chk: "opMoveTrivias_Check [''@type'', ''SemicolonToken''] (Var ''group'') Map.empty
        (Object ex_return)
     = ((True, None),
        [''group'' \<mapsto> Object [KeyType \<mapsto> String typeGroup,
           ''Nodes'' \<mapsto> Array
              [Object [KeyType \<mapsto> String ''ReturnStatement'',
                       ''SemicolonToken'' \<mapsto> ex_typed ''SemicolonToken''],
               ex_typed ''EndOfLineTrivia'']]])"
    by (simp add: opMoveTrivias_Check_def held ToNode_Group_def triviaField_def KeyType_def
                  Var_def)
  have ne: "Object [KeyType \<mapsto> String ''ReturnStatement'',
              ''SemicolonToken'' \<mapsto> ex_typed ''SemicolonToken'']
     \<noteq> Object (ex_return(''LeadingTrivia'' := None, ''TrailingTrivia'' := None))"
  proof
    assume "Object [KeyType \<mapsto> String ''ReturnStatement'',
              ''SemicolonToken'' \<mapsto> ex_typed ''SemicolonToken'']
       = Object (ex_return(''LeadingTrivia'' := None, ''TrailingTrivia'' := None))"
    then have "[KeyType \<mapsto> String ''ReturnStatement'',
              ''SemicolonToken'' \<mapsto> ex_typed ''SemicolonToken''] ''SemicolonToken''
       = (ex_return(''LeadingTrivia'' := None, ''TrailingTrivia'' := None)) ''SemicolonToken''"
      by simp
    then have "ex_typed ''SemicolonToken''
       = Object (ex_group [ex_typed ''SemicolonToken'', ex_typed ''EndOfLineTrivia''])"
      by (simp add: ex_return_def)
    then have "[KeyType \<mapsto> String ''SemicolonToken''] ''Nodes''
       = (ex_group [ex_typed ''SemicolonToken'', ex_typed ''EndOfLineTrivia'']) ''Nodes''"
      by (simp add: ex_typed_def)
    then show False by (simp add: ex_group_def KeyType_def)
  qed
  from held tf chk ne show ?thesis by blast
qed

section \<open>Nodes that need no change\<close>




section \<open>The chain decoder\<close>

text \<open>
  Claim C4, as the code has it, for the chain operator of the rule table on a fresh
  state. \<^verbatim>\<open>opArrToChain.Check\<close> peels no wrapper: on every node \<open>c\<close> it matches, binds the
  empty list as the modifiers and \<open>c\<close> itself as the terminal, and \<^verbatim>\<open>Construct\<close> from
  these bindings returns \<open>c\<close>. So decoding and then encoding returns the original
  structure for every number of layers, and encoding and then decoding recovers the
  pair of the empty modifier list and the terminal \<open>t\<close>.
\<close>

theorem opArrToChain_roundtrip:
  "(opArrToChain_Construct ex_chainOp [''rest'' \<mapsto> Array [], ''type'' \<mapsto> t] n
      = (Inr t, [''rest'' \<mapsto> Array [], ''type'' \<mapsto> t]))
   \<and> (case opArrToChain_Check ex_chainOp Map.empty c of (r, st') \<Rightarrow>
         matched r \<and> st' ''rest'' = Some (Array []) \<and> st' ''type'' = Some c \<and>
         opArrToChain_Construct ex_chainOp st' n = (Inr c, st'))"
  by (simp add: opArrToChain_Construct_def opArrToChain_Check_def ex_chainOp_def Var_def
                matched_def)

theorem opArrToChain_roundtrip_witness:
  "opArrToChain_Construct ex_chainOp [''rest'' \<mapsto> Array [], ''type'' \<mapsto> ex_Int] Nil_node
      = (Inr ex_Int, [''rest'' \<mapsto> Array [], ''type'' \<mapsto> ex_Int])
   \<and> opArrToChain_Check ex_chainOp Map.empty (Object (ex_ref(''Type'' \<mapsto> ex_Int)))
      = ((True, None), [''type'' \<mapsto> Object (ex_ref(''Type'' \<mapsto> ex_Int)), ''rest'' \<mapsto> Array []])"
  using opArrToChain_roundtrip[of ex_Int Nil_node "Object (ex_ref(''Type'' \<mapsto> ex_Int))"]
  by (simp add: opArrToChain_Check_def ex_chainOp_def Var_def)

text \<open>
  With one modifier the pair is not recovered: the chain of \<^verbatim>\<open>ref\<close> around \<^verbatim>\<open>Int\<close>
  decodes to the empty list and the whole chain.
\<close>

theorem opArrToChain_roundtrip_counterexample:
  "opArrToChain_Construct ex_chainOp
     [''rest'' \<mapsto> Array [Object ex_ref], ''type'' \<mapsto> ex_Int] Nil_node
     = (Inr (Object (ex_ref(''Type'' \<mapsto> ex_Int))),
        [''rest'' \<mapsto> Array [Object ex_ref], ''type'' \<mapsto> ex_Int])
   \<and> snd (opArrToChain_Check ex_chainOp Map.empty (Object (ex_ref(''Type'' \<mapsto> ex_Int))))
         ''rest'' = Some (Array [])
   \<and> Array [] \<noteq> Array [Object ex_ref]
   \<and> snd (opArrToChain_Check ex_chainOp Map.empty (Object (ex_ref(''Type'' \<mapsto> ex_Int))))
         ''type'' = Some (Object (ex_ref(''Type'' \<mapsto> ex_Int)))
   \<and> Object (ex_ref(''Type'' \<mapsto> ex_Int)) \<noteq> ex_Int"
proof -
  have "Object (ex_ref(''Type'' \<mapsto> ex_Int)) \<noteq> ex_Int"
  proof
    assume "Object (ex_ref(''Type'' \<mapsto> ex_Int)) = ex_Int"
    then have "(ex_ref(''Type'' \<mapsto> ex_Int)) ''Type'' = [KeyType \<mapsto> String ''Int''] ''Type''"
      by (simp add: ex_Int_def ex_typed_def)
    then show False by (simp add: KeyType_def)
  qed
  then show ?thesis
    by (simp add: opArrToChain_Construct_def opArrToChain_Check_def ex_chainOp_def Var_def)
qed

section \<open>Invariant violations\<close>

lemma chain_range_error:
  "\<exists>ob. Object ob \<in> set mods \<and> ob ''Type'' \<noteq> None \<Longrightarrow> \<exists>e. chain_range mods t = Inl e"
proof (induction mods arbitrary: t)
  case Nil
  then show ?case by simp
next
  case (Cons nd mods)
  show ?case
  proof (cases nd)
    case (Object ob)
    show ?thesis
    proof (cases "ob ''Type''")
      case None
      with Cons.prems Object have "\<exists>ob. Object ob \<in> set mods \<and> ob ''Type'' \<noteq> None" by auto
      from Cons.IH[OF this] Object None show ?thesis by simp
    next
      case (Some a)
      with Object show ?thesis by simp
    qed
  qed simp_all
qed

text \<open>
  Claim C9. \<^verbatim>\<open>opArrToChain.Construct\<close> returns an error when a modifier of the list is an
  object that carries \<^verbatim>\<open>Type\<close>. \<^verbatim>\<open>opMoveTrivias.Check\<close> returns an error, and does
  not call its sub-pattern, when it holds leading or trailing nodes for a node whose
  type has a designated field and the node has no array there. \<^verbatim>\<open>opMergeGroups.Check\<close>
  returns an error when the \<^verbatim>\<open>Nodes\<close> field of the generic wrapper or FunctionGroup it
  is given is not an array, and when the first FunctionGroup inside a generic wrapper
  has no \<^verbatim>\<open>Nodes\<close> array.
\<close>

theorem invariant_violations_are_errors:
  "(Construct (opMods op) st0 Nil_node = (Inr (Array mods), st1) \<and>
    (\<exists>ob. Object ob \<in> set mods \<and> ob ''Type'' \<noteq> None) \<longrightarrow>
      (\<exists>e st'. opArrToChain_Construct op st0 n = (Inl e, st')))
   \<and> (moveTrivias_held ks m = Inr v \<and> (leading v \<noteq> [] \<or> trailing v \<noteq> []) \<and>
      triviaField (TypeOf (Object m)) = Some field \<and> (\<forall>xs. m field \<noteq> Some (Array xs)) \<longrightarrow>
        opMoveTrivias_Check ks sub st (Object m) =
          ((False, Some (ErrMsg (''expected '' @ quoted field @ '' field to be an array''))), st))
   \<and> ((TypeOf (Object g) = typeGroup \<or> TypeOf (Object g) = typeFuncGroup) \<and>
      (\<forall>xs. g ''Nodes'' \<noteq> Some (Array xs)) \<longrightarrow>
        (\<exists>e. opMergeGroups_Check sub st (Object g) = ((False, Some e), st)))
   \<and> (TypeOf (Object g') = typeGroup \<and> g' ''Nodes'' = Some (Array arr) \<and>
      i < length arr \<and> arr ! i = Object fg \<and> TypeOf (Object fg) = typeFuncGroup \<and>
      (\<forall>j<i. TypeOf (arr ! j) \<noteq> typeFuncGroup) \<and> (\<forall>xs. fg ''Nodes'' \<noteq> Some (Array xs)) \<longrightarrow>
        (\<exists>e. opMergeGroups_Check sub st (Object g') = ((False, Some e), st)))"
proof -
  have chain: "Construct (opMods op) st0 Nil_node = (Inr (Array mods), st1) \<and>
    (\<exists>ob. Object ob \<in> set mods \<and> ob ''Type'' \<noteq> None) \<longrightarrow>
      (\<exists>e st'. opArrToChain_Construct op st0 n = (Inl e, st'))"
  proof
    assume a: "Construct (opMods op) st0 Nil_node = (Inr (Array mods), st1) \<and>
      (\<exists>ob. Object ob \<in> set mods \<and> ob ''Type'' \<noteq> None)"
    show "\<exists>e st'. opArrToChain_Construct op st0 n = (Inl e, st')"
    proof (cases "Construct (opType op) st1 n")
      case (Pair r st2)
      show ?thesis
      proof (cases r)
        case (Inl e)
        with a Pair show ?thesis by (simp add: opArrToChain_Construct_def)
      next
        case (Inr t)
        from a chain_range_error[of mods t] obtain e where "chain_range mods t = Inl e"
          by blast
        with a Pair Inr show ?thesis by (simp add: opArrToChain_Construct_def)
      qed
    qed
  qed
  have trivia: "moveTrivias_held ks m = Inr v \<and> (leading v \<noteq> [] \<or> trailing v \<noteq> []) \<and>
      triviaField (TypeOf (Object m)) = Some field \<and> (\<forall>xs. m field \<noteq> Some (Array xs)) \<longrightarrow>
        opMoveTrivias_Check ks sub st (Object m) =
          ((False, Some (ErrMsg (''expected '' @ quoted field @ '' field to be an array''))), st)"
  proof
    assume a: "moveTrivias_held ks m = Inr v \<and> (leading v \<noteq> [] \<or> trailing v \<noteq> []) \<and>
      triviaField (TypeOf (Object m)) = Some field \<and> (\<forall>xs. m field \<noteq> Some (Array xs))"
    then have held: "moveTrivias_held ks m = Inr v" by simp
    from a have ne: "(length (leading v) = 0 \<and> length (trailing v) = 0) = False" by simp
    from a moveTrivias_held_TypeOf[OF held]
    have t: "triviaField (TypeOf (Object (obj v))) = Some field" by simp
    from a moveTrivias_held_field[OF held, of "TypeOf (Object m)" field]
    have f: "fieldArray (obj v) field = ([], False)"
      by (auto simp: fieldArray_def split: option.splits node.splits)
    show "opMoveTrivias_Check ks sub st (Object m) =
          ((False, Some (ErrMsg (''expected '' @ quoted field @ '' field to be an array''))), st)"
      using held ne t f
      by (auto simp: opMoveTrivias_Check_def simp del: TypeOf.simps)
  qed
  have outer: "(TypeOf (Object g) = typeGroup \<or> TypeOf (Object g) = typeFuncGroup) \<and>
      (\<forall>xs. g ''Nodes'' \<noteq> Some (Array xs)) \<longrightarrow>
        (\<exists>e. opMergeGroups_Check sub st (Object g) = ((False, Some e), st))"
  proof
    assume a: "(TypeOf (Object g) = typeGroup \<or> TypeOf (Object g) = typeFuncGroup) \<and>
      (\<forall>xs. g ''Nodes'' \<noteq> Some (Array xs))"
    then have f: "fieldArray g ''Nodes'' = ([], False)"
      by (auto simp: fieldArray_def split: option.splits node.splits)
    from a f typeGroup_neq_typeFuncGroup
    show "\<exists>e. opMergeGroups_Check sub st (Object g) = ((False, Some e), st)"
      by (auto simp: opMergeGroups_Check_def checkGroup_def checkFuncGroup_def
               simp del: TypeOf.simps)
  qed
  have inner: "TypeOf (Object g') = typeGroup \<and> g' ''Nodes'' = Some (Array arr) \<and>
      i < length arr \<and> arr ! i = Object fg \<and> TypeOf (Object fg) = typeFuncGroup \<and>
      (\<forall>j<i. TypeOf (arr ! j) \<noteq> typeFuncGroup) \<and> (\<forall>xs. fg ''Nodes'' \<noteq> Some (Array xs)) \<longrightarrow>
        (\<exists>e. opMergeGroups_Check sub st (Object g') = ((False, Some e), st))"
  proof
    assume a: "TypeOf (Object g') = typeGroup \<and> g' ''Nodes'' = Some (Array arr) \<and>
      i < length arr \<and> arr ! i = Object fg \<and> TypeOf (Object fg) = typeFuncGroup \<and>
      (\<forall>j<i. TypeOf (arr ! j) \<noteq> typeFuncGroup) \<and> (\<forall>xs. fg ''Nodes'' \<noteq> Some (Array xs))"
    then have fw: "firstWithType arr (\<lambda>typ. typ = typeFuncGroup) = Some i"
      by (simp add: firstWithType_Some del: TypeOf.simps)
    from a have f: "fieldArray fg ''Nodes'' = ([], False)"
      by (auto simp: fieldArray_def split: option.splits node.splits)
    from a fw f
    show "\<exists>e. opMergeGroups_Check sub st (Object g') = ((False, Some e), st)"
      by (auto simp: opMergeGroups_Check_def checkGroup_def fieldArray_def
               simp del: TypeOf.simps)
  qed
  from chain trivia outer inner show ?thesis by (intro conjI)
qed

theorem invariant_violations_are_errors_witness:
  "opArrToChain_Construct ex_chainOp
     [''rest'' \<mapsto> Array [Object (ex_ref(''Type'' \<mapsto> ex_Int))], ''type'' \<mapsto> ex_Int] Nil_node
     = (Inl (ErrMsg ''unexpected field in modifier: Type''),
        [''rest'' \<mapsto> Array [Object (ex_ref(''Type'' \<mapsto> ex_Int))], ''type'' \<mapsto> ex_Int])
   \<and> opMoveTrivias_Check [''@type''] (Var ''group'') Map.empty (Object ex_block_no_statements)
     = ((False, Some (ErrMsg (''expected '' @ quoted ''Statements'' @ '' field to be an array''))),
        Map.empty)
   \<and> opMergeGroups_Check (Var ''group'') Map.empty (Object [KeyType \<mapsto> String typeGroup])
     = ((False, Some (ErrMsg ''expected an array in Group.Nodes'')), Map.empty)
   \<and> opMergeGroups_Check (Var ''group'') Map.empty (Object [KeyType \<mapsto> String typeFuncGroup])
     = ((False, Some (ErrMsg ''expected an array in FuncGroup.Nodes'')), Map.empty)
   \<and> opMergeGroups_Check (Var ''group'') Map.empty
        (Object (ex_group [String ''s'', Object [KeyType \<mapsto> String typeFuncGroup]]))
     = ((False, Some (ErrMsg ''expected an array in Group.Nodes'')), Map.empty)"
proof -
  let ?st0 = "[''rest'' \<mapsto> Array [Object (ex_ref(''Type'' \<mapsto> ex_Int))], ''type'' \<mapsto> ex_Int]"
  let ?v = "\<lparr> obj = ex_block_no_statements(''LeadingTrivia'' := None, ''TrailingTrivia'' := None),
              leading = [ex_typed ''C1''], trailing = [], modified = True \<rparr>"
  have a: "Construct (opMods ex_chainOp) ?st0 Nil_node
             = (Inr (Array [Object (ex_ref(''Type'' \<mapsto> ex_Int))]), ?st0) \<and>
           (\<exists>ob. Object ob \<in> set [Object (ex_ref(''Type'' \<mapsto> ex_Int))] \<and> ob ''Type'' \<noteq> None)"
    by (simp add: ex_chainOp_def Var_def)
  have b: "moveTrivias_held [''@type''] ex_block_no_statements = Inr ?v \<and>
           (leading ?v \<noteq> [] \<or> trailing ?v \<noteq> []) \<and>
           triviaField (TypeOf (Object ex_block_no_statements)) = Some ''Statements'' \<and>
           (\<forall>xs. ex_block_no_statements ''Statements'' \<noteq> Some (Array xs))"
    by (simp add: moveTrivias_held_def moveTrivias_init_def moveTrivias_round_def fieldArray_def
                  ex_block_no_statements_def KeyType_def HasSuffix_def triviaField_def)
  have c: "(TypeOf (Object [KeyType \<mapsto> String typeGroup]) = typeGroup \<or>
            TypeOf (Object [KeyType \<mapsto> String typeGroup]) = typeFuncGroup) \<and>
           (\<forall>xs. [KeyType \<mapsto> String typeGroup] ''Nodes'' \<noteq> Some (Array xs))"
    by (simp add: KeyType_def)
  have d: "TypeOf (Object (ex_group [String ''s'', Object [KeyType \<mapsto> String typeFuncGroup]]))
             = typeGroup \<and>
           ex_group [String ''s'', Object [KeyType \<mapsto> String typeFuncGroup]] ''Nodes''
             = Some (Array [String ''s'', Object [KeyType \<mapsto> String typeFuncGroup]]) \<and>
           1 < length [String ''s'', Object [KeyType \<mapsto> String typeFuncGroup]] \<and>
           [String ''s'', Object [KeyType \<mapsto> String typeFuncGroup]] ! 1
             = Object [KeyType \<mapsto> String typeFuncGroup] \<and>
           TypeOf (Object [KeyType \<mapsto> String typeFuncGroup]) = typeFuncGroup \<and>
           (\<forall>j<1. TypeOf ([String ''s'', Object [KeyType \<mapsto> String typeFuncGroup]] ! j)
                     \<noteq> typeFuncGroup) \<and>
           (\<forall>xs. [KeyType \<mapsto> String typeFuncGroup] ''Nodes'' \<noteq> Some (Array xs))"
    by (simp add: ex_group_def KeyType_def typeFuncGroup_def)
  note t = invariant_violations_are_errors
             [where op = ex_chainOp and ?st0.0 = ?st0 and mods = "[Object (ex_ref(''Type'' \<mapsto> ex_Int))]"
                and ?st1.0 = ?st0 and n = Nil_node
                and ks = "[''@type'']" and m = ex_block_no_statements and v = ?v
                and field = "''Statements''" and sub = "Var ''group''" and st = Map.empty
                and g = "[KeyType \<mapsto> String typeGroup]"
                and g' = "ex_group [String ''s'', Object [KeyType \<mapsto> String typeFuncGroup]]"
                and arr = "[String ''s'', Object [KeyType \<mapsto> String typeFuncGroup]]"
                and i = 1 and fg = "[KeyType \<mapsto> String typeFuncGroup]"]
  from t a have e1: "\<exists>e st'. opArrToChain_Construct ex_chainOp ?st0 Nil_node = (Inl e, st')"
    by blast
  from t b have e2: "opMoveTrivias_Check [''@type''] (Var ''group'') Map.empty
                       (Object ex_block_no_statements)
     = ((False, Some (ErrMsg (''expected '' @ quoted ''Statements'' @ '' field to be an array''))),
        Map.empty)"
    by blast
  from t c have e3: "\<exists>e. opMergeGroups_Check (Var ''group'') Map.empty
                            (Object [KeyType \<mapsto> String typeGroup]) = ((False, Some e), Map.empty)"
    by blast
  from t d have e4: "\<exists>e. opMergeGroups_Check (Var ''group'') Map.empty
        (Object (ex_group [String ''s'', Object [KeyType \<mapsto> String typeFuncGroup]]))
          = ((False, Some e), Map.empty)"
    by blast
  have r1: "opArrToChain_Construct ex_chainOp ?st0 Nil_node
     = (Inl (ErrMsg ''unexpected field in modifier: Type''), ?st0)"
    using e1 by (simp add: opArrToChain_Construct_def ex_chainOp_def Var_def)
  have r3: "opMergeGroups_Check (Var ''group'') Map.empty (Object [KeyType \<mapsto> String typeGroup])
     = ((False, Some (ErrMsg ''expected an array in Group.Nodes'')), Map.empty)"
    using e3 by (simp add: opMergeGroups_Check_def checkGroup_def fieldArray_def KeyType_def)
  have r3': "opMergeGroups_Check (Var ''group'') Map.empty (Object [KeyType \<mapsto> String typeFuncGroup])
     = ((False, Some (ErrMsg ''expected an array in FuncGroup.Nodes'')), Map.empty)"
    by (simp add: opMergeGroups_Check_def checkFuncGroup_def fieldArray_def KeyType_def
                  typeGroup_def typeFuncGroup_def)
  have r4: "opMergeGroups_Check (Var ''group'') Map.empty
        (Object (ex_group [String ''s'', Object [KeyType \<mapsto> String typeFuncGroup]]))
     = ((False, Some (ErrMsg ''expected an array in Group.Nodes'')), Map.empty)"
    using e4
    by (simp add: opMergeGroups_Check_def checkGroup_def fieldArray_def KeyType_def
                  ex_group_def firstWithType_def typeFuncGroup_def)
  from r1 e2 r3 r3' r4 show ?thesis by (intro conjI)
qed

end
